theory Spec2Isabelle
  imports Main "HOL-Library.Word"
begin

unbundle bit_operations_syntax

section \<open>Bytes, strings and errors\<close>

text \<open>
  A Go \<open>byte\<close> (and \<open>uint8\<close>) is an 8-bit word. A Go \<open>string\<close> is an immutable
  sequence of bytes and \<open>[]byte\<close> a slice of bytes; both are byte lists here. A string
  literal such as \<open>"\x1B@"\<close> is the list of its bytes. Go's \<open>int\<close> is modelled by
  \<open>int\<close>, lengths by \<open>nat\<close>. A Go \<open>error\<close> is \<open>error option\<close>, \<open>None\<close> for \<open>nil\<close>.
\<close>

type_synonym byte = "8 word"

datatype error = Error string

definition DLE :: byte where "DLE = 0x10"
definition EOT :: byte where "EOT = 0x04"
definition GS :: byte where "GS = 0x1D"

section \<open>The transport: \<open>io.ReadWriter\<close>\<close>

text \<open>
  The destination \<open>dst\<close> is any \<open>io.ReadWriter\<close>. Its behaviour is not part of the
  encoder, so it is a parameter: what a call returns may depend on every call made so far.
  The transport records the calls it receives, in order; \<open>write_result\<close> and
  \<open>read_result\<close> give the result of the next \<open>Write\<close> and \<open>Read\<close>.
  \<open>Read(p)\<close> stores at most \<open>len(p)\<close> bytes at the start of \<open>p\<close> and reports how
  many.
\<close>

datatype io_call = WriteCall "byte list" | ReadCall nat

record transport =
  calls :: "io_call list"
  write_result :: "io_call list \<Rightarrow> byte list \<Rightarrow> int \<times> error option"
  read_result :: "io_call list \<Rightarrow> nat \<Rightarrow> byte list \<times> error option"

definition dst_Write :: "byte list \<Rightarrow> transport \<Rightarrow> (int \<times> error option) \<times> transport" where
  "dst_Write p t = (write_result t (calls t) p, t\<lparr>calls := calls t @ [WriteCall p]\<rparr>)"

definition dst_Read ::
  "byte list \<Rightarrow> transport \<Rightarrow> (byte list \<times> int \<times> error option) \<times> transport" where
  "dst_Read p t =
     (let (bs, err) = read_result t (calls t) (length p);
          got = take (length p) bs
      in ((got @ drop (length got) p, int (length got), err),
          t\<lparr>calls := calls t @ [ReadCall (length p)]\<rparr>))"

text \<open>The bytes handed to the transport so far, as one stream.\<close>

fun written :: "io_call list \<Rightarrow> byte list" where
  "written [] = []"
| "written (WriteCall p # cs) = p @ written cs"
| "written (ReadCall n # cs) = written cs"

section \<open>Text formatting: \<open>fmt.Sprintf\<close>\<close>

text \<open>
  The verb \<open>%c\<close> of \<open>fmt.Sprintf\<close> formats an integer as the UTF-8 encoding of the
  code point with that number (\<open>fmtC\<close> over \<open>utf8.AppendRune\<close>): one byte below 0x80,
  two to four bytes above, and the encoding of U+FFFD for a number that is no code point.
  The verb \<open>%v\<close> formats an \<open>int\<close> in decimal and a string as it is.
\<close>

definition RuneError :: nat where "RuneError = 0xFFFD"
definition MaxRune :: nat where "MaxRune = 0x10FFFF"

definition AppendRune :: "nat \<Rightarrow> byte list" where
  "AppendRune r =
     (if r \<le> 0x7F then [of_nat r]
      else if r \<le> 0x7FF then
        [0xC0 OR of_nat (drop_bit 6 r), 0x80 OR (of_nat r AND 0x3F)]
      else if r > MaxRune \<or> (0xD800 \<le> r \<and> r \<le> 0xDFFF) then
        [0xEF, 0xBF, 0xBD]
      else if r \<le> 0xFFFF then
        [0xE0 OR of_nat (drop_bit 12 r), 0x80 OR (of_nat (drop_bit 6 r) AND 0x3F),
         0x80 OR (of_nat r AND 0x3F)]
      else
        [0xF0 OR of_nat (drop_bit 18 r), 0x80 OR (of_nat (drop_bit 12 r) AND 0x3F),
         0x80 OR (of_nat (drop_bit 6 r) AND 0x3F), 0x80 OR (of_nat r AND 0x3F)])"

definition fmtC :: "int \<Rightarrow> byte list" where
  "fmtC c = (if c < 0 \<or> c > int MaxRune then AppendRune RuneError else AppendRune (nat c))"

fun fmtInt :: "nat \<Rightarrow> byte list" where
  "fmtInt n = (if n < 10 then [of_nat (48 + n)]
               else fmtInt (n div 10) @ [of_nat (48 + n mod 10)])"

declare fmtInt.simps [simp del]

section \<open>Text transcoding: the GB18030 encoder\<close>

text \<open>
  \<open>Write\<close> sends its string through the GB18030 encoder of the package
  \<open>golang.org/x/text\<close>, which is not part of the repository. The encoder reads the
  string as UTF-8, rune by rune. A byte below 0x80 is copied. Anything else is decoded
  with \<open>utf8.DecodeRune\<close>, where a byte that starts no valid sequence counts as the
  rune U+FFFD of size 1, and the rune is replaced by its GB18030 code, which has two or
  four bytes. The code of each rune comes from the package's tables; they are the
  parameter \<open>T\<close> of the model. The encoder has a code for every rune, so it reports no
  error of its own.
\<close>

datatype gb18030_code = TwoByte byte byte | FourByte byte byte byte byte

fun code_bytes :: "gb18030_code \<Rightarrow> byte list" where
  "code_bytes (TwoByte a b) = [a, b]"
| "code_bytes (FourByte a b c d) = [a, b, c, d]"

type_synonym gb18030_table = "nat \<Rightarrow> gb18030_code"

text \<open>
  \<open>first_size\<close> is the sequence length announced by a leading byte (0 for a byte that
  leads no sequence); \<open>accept_lo\<close> and \<open>accept_hi\<close> bound its second byte.
\<close>

definition first_size :: "byte \<Rightarrow> nat" where
  "first_size p0 =
     (if p0 < 0x80 then 1
      else if p0 < 0xC2 then 0
      else if p0 < 0xE0 then 2
      else if p0 < 0xF0 then 3
      else if p0 < 0xF5 then 4
      else 0)"

definition accept_lo :: "byte \<Rightarrow> byte" where
  "accept_lo p0 = (if p0 = 0xE0 then 0xA0 else if p0 = 0xF0 then 0x90 else 0x80)"

definition accept_hi :: "byte \<Rightarrow> byte" where
  "accept_hi p0 = (if p0 = 0xED then 0x9F else if p0 = 0xF4 then 0x8F else 0xBF)"

definition DecodeRune :: "byte list \<Rightarrow> nat \<times> nat" where
  "DecodeRune p =
     (case p of
        [] \<Rightarrow> (RuneError, 0)
      | p0 # _ \<Rightarrow>
          if p0 < 0x80 then (unat p0, 1)
          else if first_size p0 = 0 then (RuneError, 1)
          else if length p < first_size p0 then (RuneError, 1)
          else
            let b1 = p ! 1 in
            if b1 < accept_lo p0 \<or> accept_hi p0 < b1 then (RuneError, 1)
            else if first_size p0 \<le> 2 then
              (push_bit 6 (unat (p0 AND 0x1F)) OR unat (b1 AND 0x3F), 2)
            else
              let b2 = p ! 2 in
              if b2 < 0x80 \<or> 0xBF < b2 then (RuneError, 1)
              else if first_size p0 \<le> 3 then
                (push_bit 12 (unat (p0 AND 0x0F)) OR push_bit 6 (unat (b1 AND 0x3F))
                   OR unat (b2 AND 0x3F), 3)
              else
                let b3 = p ! 3 in
                if b3 < 0x80 \<or> 0xBF < b3 then (RuneError, 1)
                else
                  (push_bit 18 (unat (p0 AND 0x07)) OR push_bit 12 (unat (b1 AND 0x3F))
                     OR push_bit 6 (unat (b2 AND 0x3F)) OR unat (b3 AND 0x3F), 4))"

text \<open>
  The encoder's loop. The size of a decoded rune is at least 1, so advancing by
  \<open>size\<close> from the leading byte drops \<open>size - 1\<close> bytes of what follows it.
\<close>

fun Transform :: "gb18030_table \<Rightarrow> byte list \<Rightarrow> byte list" where
  "Transform T [] = []"
| "Transform T (b # bs) =
     (if b < 0x80 then b # Transform T bs
      else code_bytes (T (fst (DecodeRune (b # bs))))
             @ Transform T (drop (snd (DecodeRune (b # bs)) - 1) bs))"

section \<open>The encoder state\<close>

record Escpos =
  dst :: transport
  width :: byte
  height :: byte
  underline :: byte
  emphasize :: byte
  upsidedown :: byte
  rotate_t :: byte
  reverse :: byte
  smooth :: byte

text \<open>The field \<open>rotate\<close> of the source is \<open>rotate_t\<close> here.\<close>

definition reset :: "Escpos \<Rightarrow> Escpos" where
  "reset e = e\<lparr>width := 1, height := 1, underline := 0, emphasize := 0,
               upsidedown := 0, rotate_t := 0, reverse := 0, smooth := 0\<rparr>"

definition New :: "transport \<Rightarrow> Escpos" where
  "New d = reset \<lparr>dst = d, width = 0, height = 0, underline = 0, emphasize = 0,
                  upsidedown = 0, rotate_t = 0, reverse = 0, smooth = 0\<rparr>"

section \<open>Output primitives\<close>

text \<open>
  The methods have a pointer receiver and change the encoder in place; the model returns
  the encoder after the call, beside the method's results when it has any.
\<close>

definition WriteRaw :: "byte list \<Rightarrow> Escpos \<Rightarrow> (int \<times> error option) \<times> Escpos" where
  "WriteRaw data e =
     ((0, None),
      if length data > 0 then e\<lparr>dst := snd (dst_Write data (dst e))\<rparr> else e)"

definition ReadRaw ::
  "byte list \<Rightarrow> Escpos \<Rightarrow> (byte list \<times> int \<times> error option) \<times> Escpos" where
  "ReadRaw data e =
     (let (res, d) = dst_Read data (dst e) in (res, e\<lparr>dst := d\<rparr>))"

definition Write :: "gb18030_table \<Rightarrow> byte list \<Rightarrow> Escpos \<Rightarrow> (int \<times> error option) \<times> Escpos" where
  "Write T data e = WriteRaw (Transform T data) e"

section \<open>Commands\<close>

definition OpenDrawer :: "Escpos \<Rightarrow> Escpos" where
  "OpenDrawer e = snd (WriteRaw [0x1B, 0x70, 0, 10, 10] e)"

definition Init :: "gb18030_table \<Rightarrow> Escpos \<Rightarrow> Escpos" where
  "Init T e = snd (Write T [0x1B, 0x40] (reset e))"

definition End :: "gb18030_table \<Rightarrow> Escpos \<Rightarrow> Escpos" where
  "End T e = snd (Write T [0xFA] e)"

definition CutPartial :: "Escpos \<Rightarrow> Escpos" where
  "CutPartial e = snd (WriteRaw [GS, 0x56, 1] e)"

definition Cash :: "gb18030_table \<Rightarrow> Escpos \<Rightarrow> Escpos" where
  "Cash T e = snd (Write T [0x1B, 0x70, 0x00, 0x0A, 0xFF] e)"

definition FormfeedN :: "gb18030_table \<Rightarrow> int \<Rightarrow> Escpos \<Rightarrow> Escpos" where
  "FormfeedN T n e = snd (Write T ([0x1B, 0x64] @ fmtC n) e)"

definition SendFontSize :: "gb18030_table \<Rightarrow> Escpos \<Rightarrow> Escpos" where
  "SendFontSize T e =
     snd (Write T ([0x1D, 0x21] @ fmtC (uint (push_bit 4 (width e) OR height e))) e)"

definition SetFontSize :: "gb18030_table \<Rightarrow> byte \<Rightarrow> byte \<Rightarrow> Escpos \<Rightarrow> Escpos" where
  "SetFontSize T w h e =
     (if w \<ge> 0 \<and> h \<ge> 0 \<and> w < 8 \<and> h < 8
      then SendFontSize T (e\<lparr>width := w, height := h\<rparr>)
      else e)"

definition SetFontColor :: "byte \<Rightarrow> Escpos \<Rightarrow> Escpos" where
  "SetFontColor color e = snd (WriteRaw [0x1B, 0x72, color] e)"

definition SendUnderline :: "gb18030_table \<Rightarrow> Escpos \<Rightarrow> Escpos" where
  "SendUnderline T e = snd (Write T ([0x1B, 0x2D] @ fmtC (uint (underline e))) e)"

definition SendEmphasize :: "gb18030_table \<Rightarrow> Escpos \<Rightarrow> Escpos" where
  "SendEmphasize T e = snd (Write T ([0x1B, 0x47] @ fmtC (uint (emphasize e))) e)"

definition SendUpsidedown :: "gb18030_table \<Rightarrow> Escpos \<Rightarrow> Escpos" where
  "SendUpsidedown T e = snd (Write T ([0x1B, 0x7B] @ fmtC (uint (upsidedown e))) e)"

definition SendRotate :: "gb18030_table \<Rightarrow> Escpos \<Rightarrow> Escpos" where
  "SendRotate T e = snd (Write T ([0x1B, 0x52] @ fmtC (uint (rotate_t e))) e)"

definition SendReverse :: "gb18030_table \<Rightarrow> Escpos \<Rightarrow> Escpos" where
  "SendReverse T e = snd (Write T ([0x1D, 0x42] @ fmtC (uint (reverse e))) e)"

definition SendSmooth :: "gb18030_table \<Rightarrow> Escpos \<Rightarrow> Escpos" where
  "SendSmooth T e = snd (Write T ([0x1D, 0x62] @ fmtC (uint (smooth e))) e)"

definition SetUnderline :: "gb18030_table \<Rightarrow> byte \<Rightarrow> Escpos \<Rightarrow> Escpos" where
  "SetUnderline T v e = SendUnderline T (e\<lparr>underline := v\<rparr>)"

definition SetEmphasize :: "gb18030_table \<Rightarrow> byte \<Rightarrow> Escpos \<Rightarrow> Escpos" where
  "SetEmphasize T u e = SendEmphasize T (e\<lparr>emphasize := u\<rparr>)"

definition SetUpsidedown :: "gb18030_table \<Rightarrow> byte \<Rightarrow> Escpos \<Rightarrow> Escpos" where
  "SetUpsidedown T v e = SendUpsidedown T (e\<lparr>upsidedown := v\<rparr>)"

definition SetRotate :: "gb18030_table \<Rightarrow> byte \<Rightarrow> Escpos \<Rightarrow> Escpos" where
  "SetRotate T v e = SendRotate T (e\<lparr>rotate_t := v\<rparr>)"

definition SetReverse :: "gb18030_table \<Rightarrow> byte \<Rightarrow> Escpos \<Rightarrow> Escpos" where
  "SetReverse T v e = SendReverse T (e\<lparr>reverse := v\<rparr>)"

definition SetSmooth :: "gb18030_table \<Rightarrow> byte \<Rightarrow> Escpos \<Rightarrow> Escpos" where
  "SetSmooth T v e = SendSmooth T (e\<lparr>smooth := v\<rparr>)"

text \<open>The strings \<open>"left"\<close>, \<open>"center"\<close> and \<open>"right"\<close>.\<close>

definition str_left :: "byte list" where "str_left = [0x6C, 0x65, 0x66, 0x74]"
definition str_center :: "byte list" where "str_center = [0x63, 0x65, 0x6E, 0x74, 0x65, 0x72]"
definition str_right :: "byte list" where "str_right = [0x72, 0x69, 0x67, 0x68, 0x74]"

definition SetAlign :: "gb18030_table \<Rightarrow> byte list \<Rightarrow> Escpos \<Rightarrow> Escpos" where
  "SetAlign T align e =
     (let a = (if align = str_left then 0
               else if align = str_center then 1
               else if align = str_right then 2
               else (0::int))
      in snd (Write T ([0x1B, 0x61] @ fmtC a) e))"

definition Barcode :: "gb18030_table \<Rightarrow> byte list \<Rightarrow> int \<Rightarrow> Escpos \<Rightarrow> Escpos" where
  "Barcode T barcode format e =
     (let code = (if format = 0 then [0x00]
                  else if format = 1 then [0x01]
                  else if format = 2 then [0x02]
                  else if format = 3 then [0x03]
                  else if format = 4 then [0x04]
                  else if format = 73 then [0x49]
                  else []);
          e1 = reset e;
          e2 = SetAlign T str_center e1;
          e3 = (if format > 69 then
                  snd (Write T ([0x1D, 0x6B] @ code @ fmtInt (length barcode) @ barcode) e2)
                else if format < 69 then
                  snd (Write T ([0x1D, 0x6B] @ code @ barcode @ [0x00]) e2)
                else e2)
      in snd (Write T barcode e3))"

definition gSend :: "gb18030_table \<Rightarrow> byte \<Rightarrow> byte \<Rightarrow> byte list \<Rightarrow> Escpos \<Rightarrow> Escpos" where
  "gSend T m fn data e =
     (let l = length data + 2;
          e1 = snd (Write T [0x1B, 0x28, 0x4C] e);
          e2 = snd (WriteRaw [of_nat (l mod 256), of_nat (l div 256), m, fn] e1)
      in snd (WriteRaw data e2))"

definition ReadStatus :: "byte \<Rightarrow> Escpos \<Rightarrow> (byte \<times> error option) \<times> Escpos" where
  "ReadStatus n e =
     (let e1 = snd (WriteRaw [DLE, EOT, n] e);
          ((data, cnt, err), e2) = ReadRaw [0] e1
      in if err \<noteq> None then ((0, err), e2) else ((data ! 0, None), e2))"

section \<open>Vocabulary of the specification\<close>

text \<open>
  \<open>wrote p e\<close> is the encoder \<open>e\<close> after one more \<open>Write\<close> call, with the bytes
  \<open>p\<close>, has reached its transport: the transport's record of calls is one longer and
  nothing else differs. \<open>wrote_if_any\<close> is the same when \<open>p\<close> is not empty and no
  call at all when it is.
\<close>

definition wrote :: "byte list \<Rightarrow> Escpos \<Rightarrow> Escpos" where
  "wrote p e = e\<lparr>dst := (dst e)\<lparr>calls := calls (dst e) @ [WriteCall p]\<rparr>\<rparr>"

definition wrote_if_any :: "byte list \<Rightarrow> Escpos \<Rightarrow> Escpos" where
  "wrote_if_any p e = (if p = [] then e else wrote p e)"

text \<open>The style fields of the encoder, in the order of the source's declaration.\<close>

definition style :: "Escpos \<Rightarrow> byte \<times> byte \<times> byte \<times> byte \<times> byte \<times> byte \<times> byte \<times> byte" where
  "style e = (width e, height e, underline e, emphasize e, upsidedown e, rotate_t e,
              reverse e, smooth e)"

text \<open>The power-on default: font scale (1, 1) and every toggle 0.\<close>

definition power_on_default :: "Escpos \<Rightarrow> bool" where
  "power_on_default e \<longleftrightarrow> style e = (1, 1, 0, 0, 0, 0, 0, 0)"

text \<open>
  The table of barcode type codes as the specification lists it: 0, 1, 2, 3 and 4 map to
  the byte of the same value, 73 to 0x49, any other format to the empty code.
\<close>

definition spec_type_code :: "int \<Rightarrow> byte list" where
  "spec_type_code format =
     (if format \<in> {0, 1, 2, 3, 4} then [of_int format]
      else if format = 73 then [0x49]
      else [])"

text \<open>
  The barcode operation as the specification words it: reset the style state, send the
  centring command, send the frame that the format selects, built from the text as it is,
  then send the text once more.
\<close>

definition spec_Barcode :: "byte list \<Rightarrow> int \<Rightarrow> Escpos \<Rightarrow> Escpos" where
  "spec_Barcode v format e =
     wrote_if_any v
       (wrote_if_any
          (if format > 69 then [0x1D, 0x6B] @ spec_type_code format @ fmtInt (length v) @ v
           else if format < 69 then [0x1D, 0x6B] @ spec_type_code format @ v @ [0x00]
           else [])
          (wrote [0x1B, 0x61, 0x01] (reset e)))"

text \<open>
  The graphics header as the specification words it, for data of length \<open>L\<close>: the four
  numbers \<open>(L+2) % 256\<close>, \<open>(L+2) / 256\<close>, \<open>m\<close> and \<open>fn\<close>.
\<close>

definition spec_gSend_header :: "nat \<Rightarrow> byte \<Rightarrow> byte \<Rightarrow> nat list" where
  "spec_gSend_header L m fn = [(L + 2) mod 256, (L + 2) div 256, unat m, unat fn]"

section \<open>Concrete instances\<close>

text \<open>
  An excerpt of the encoder's tables, for running the model on concrete inputs: the
  GB18030 codes of U+0080, U+00E9, U+4E2D and U+FFFD. Other runes get the code of
  U+FFFD here; no instance below encodes one.
\<close>

definition gb18030_excerpt :: gb18030_table where
  "gb18030_excerpt r =
     (if r = 0x80 then FourByte 0x81 0x30 0x81 0x30
      else if r = 0xE9 then TwoByte 0xA8 0xA6
      else if r = 0x4E2D then TwoByte 0xD6 0xD0
      else FourByte 0x84 0x31 0xA4 0x37)"

text \<open>
  Three transports. \<open>printer_ok s\<close> accepts every write in full and answers every read
  with the status byte \<open>s\<close>. \<open>printer_down\<close> fails every write and every read.
  \<open>printer_silent\<close> accepts every write and answers every read with no byte and no
  error.
\<close>

definition printer_ok :: "byte \<Rightarrow> transport" where
  "printer_ok s =
     \<lparr>calls = [],
      write_result = (\<lambda>h p. (int (length p), None)),
      read_result = (\<lambda>h n. (take n [s], None))\<rparr>"

definition printer_down :: transport where
  "printer_down =
     \<lparr>calls = [],
      write_result = (\<lambda>h p. (0, Some (Error ''broken pipe''))),
      read_result = (\<lambda>h n. ([], Some (Error ''EOF'')))\<rparr>"

definition printer_silent :: transport where
  "printer_silent =
     \<lparr>calls = [],
      write_result = (\<lambda>h p. (int (length p), None)),
      read_result = (\<lambda>h n. ([], None))\<rparr>"

section \<open>Properties of the text path\<close>

lemma Transform_ascii: "list_all (\<lambda>b. b < 0x80) bs \<Longrightarrow> Transform T bs = bs"
  by (induction bs) auto

lemma Transform_ascii_append:
  "list_all (\<lambda>b. b < 0x80) p \<Longrightarrow> Transform T (p @ v) = p @ Transform T v"
  by (induction p) auto

lemma first_size_high: "\<not> p0 < 0x80 \<Longrightarrow> first_size p0 \<in> {0, 2, 3, 4}"
  by (simp add: first_size_def)

lemma DecodeRune_Cons_size:
  "snd (DecodeRune (b # bs)) = 1 \<or>
   (snd (DecodeRune (b # bs)) = first_size b \<and> 2 \<le> first_size b
      \<and> first_size b \<le> Suc (length bs))"
  using first_size_high [of b]
  by (auto simp: DecodeRune_def Let_def)

lemma DecodeRune_size_le: "snd (DecodeRune (b # bs)) - 1 \<le> length bs"
  using DecodeRune_Cons_size [of b bs] by auto

text \<open>A byte below 0x80 after a string completes no sequence the string left open.\<close>

lemma DecodeRune_snoc:
  assumes "a < 0x80"
  shows "DecodeRune ((b # bs) @ [a]) = DecodeRune (b # bs)"
proof (cases "b < 0x80")
  case True
  then show ?thesis by (simp add: DecodeRune_def)
next
  case hi: False
  have na: "a < accept_lo b" "\<not> a \<ge> 0x80"
    using assms by (auto simp: accept_lo_def word_less_nat_alt word_le_nat_alt)
  have fs: "first_size b = 0 \<or> first_size b = 2 \<or> first_size b = 3 \<or> first_size b = 4"
    using first_size_high [OF hi] by simp
  show ?thesis
  proof (cases bs)
    case Nil
    with hi fs assms na show ?thesis by (auto simp: DecodeRune_def Let_def)
  next
    case c: (Cons c cs)
    show ?thesis
    proof (cases cs)
      case Nil
      with hi c fs assms na show ?thesis by (auto simp: DecodeRune_def Let_def)
    next
      case d: (Cons d ds)
      show ?thesis
      proof (cases ds)
        case Nil
        with hi c d fs assms na show ?thesis by (auto simp: DecodeRune_def Let_def)
      next
        case (Cons x xs)
        with hi c d fs assms na show ?thesis by (auto simp: DecodeRune_def Let_def)
      qed
    qed
  qed
qed

lemma Transform_snoc:
  "a < 0x80 \<Longrightarrow> Transform T (v @ [a]) = Transform T v @ [a]"
proof (induction T v rule: Transform.induct)
  case (1 T)
  then show ?case by simp
next
  case (2 T b bs)
  show ?case
  proof (cases "b < 0x80")
    case True
    with 2 show ?thesis by simp
  next
    case False
    have d: "DecodeRune (b # bs @ [a]) = DecodeRune (b # bs)"
      using DecodeRune_snoc [OF 2(3), of b bs] by simp
    have "drop (snd (DecodeRune (b # bs)) - 1) (bs @ [a])
            = drop (snd (DecodeRune (b # bs)) - 1) bs @ [a]"
      using DecodeRune_size_le [of b bs] by simp
    with False d 2 show ?thesis by simp
  qed
qed

lemma code_bytes_length: "length (code_bytes c) = 2 \<or> length (code_bytes c) = 4"
  by (cases c) simp_all

lemma Transform_eq_Nil: "Transform T bs = [] \<longleftrightarrow> bs = []"
proof (cases bs)
  case Nil
  then show ?thesis by simp
next
  case (Cons b rest)
  then show ?thesis
    using code_bytes_length [of "T (fst (DecodeRune (b # rest)))"] by auto
qed

lemma fmtC_ascii: "0 \<le> c \<Longrightarrow> c < 128 \<Longrightarrow> fmtC c = [of_int c]"
  by (auto simp: fmtC_def AppendRune_def MaxRune_def)

lemma fmtC_byte_ascii: "(v::byte) < 0x80 \<Longrightarrow> fmtC (uint v) = [v]"
  using fmtC_ascii [of "uint v"] by (simp add: word_less_def)

lemma fmtInt_ascii: "list_all (\<lambda>b. b < 0x80) (fmtInt n)"
proof (induction n rule: fmtInt.induct)
  case (1 n)
  have digit: "(48 + of_nat k :: byte) < 0x80" if "k < 10" for k
  proof -
    have "(of_nat (48 + k) :: byte) < 0x80"
      using that by (simp add: word_less_nat_alt unat_of_nat del: of_nat_add)
    then show ?thesis by simp
  qed
  show ?case
  proof (cases "n < 10")
    case True
    then show ?thesis by (subst fmtInt.simps) (simp add: digit)
  next
    case False
    with 1 show ?thesis by (subst fmtInt.simps) (simp add: digit)
  qed
qed

section \<open>Effect of the output primitives\<close>

lemma WriteRaw_effect: "snd (WriteRaw p e) = wrote_if_any p e"
  by (simp add: WriteRaw_def wrote_if_any_def wrote_def dst_Write_def)

lemma Write_effect: "snd (Write T p e) = wrote_if_any (Transform T p) e"
  by (simp add: Write_def WriteRaw_effect)

lemma Write_ascii_effect:
  "list_all (\<lambda>b. b < 0x80) p \<Longrightarrow> p \<noteq> [] \<Longrightarrow> snd (Write T p e) = wrote p e"
  by (simp add: Write_effect Transform_ascii wrote_if_any_def)

lemma style_wrote [simp]: "style (wrote p e) = style e"
  by (simp add: style_def wrote_def)

lemma style_wrote_if_any [simp]: "style (wrote_if_any p e) = style e"
  by (simp add: wrote_if_any_def)

lemma style_reset: "style (reset e) = (1, 1, 0, 0, 0, 0, 0, 0)"
  by (simp add: style_def reset_def)

lemma reset_wrote: "reset (wrote p e) = wrote p (reset e)"
  by (simp add: reset_def wrote_def)

lemma byte_lt8_cases:
  assumes "(w::byte) < 8"
  shows "w = 0 \<or> w = 1 \<or> w = 2 \<or> w = 3 \<or> w = 4 \<or> w = 5 \<or> w = 6 \<or> w = 7"
proof -
  have eq: "w = of_nat k" if "unat w = k" for k
    using that by auto
  from assms have "unat w < 8" by (simp add: word_less_nat_alt)
  then have "unat w = 0 \<or> unat w = 1 \<or> unat w = 2 \<or> unat w = 3 \<or> unat w = 4
               \<or> unat w = 5 \<or> unat w = 6 \<or> unat w = 7"
    by arith
  then show ?thesis
    using eq by fastforce
qed

lemma packed_ascii: "(w::byte) < 8 \<Longrightarrow> h < 8 \<Longrightarrow> push_bit 4 w OR h < 0x80"
  using byte_lt8_cases [of w] byte_lt8_cases [of h] by auto

lemma SetAlign_center: "SetAlign T str_center e = wrote [0x1B, 0x61, 0x01] e"
  by (simp add: SetAlign_def str_center_def str_left_def fmtC_ascii Write_ascii_effect)

lemma wrote_inject: "wrote p e = wrote q e \<longleftrightarrow> p = q"
proof
  assume "wrote p e = wrote q e"
  then have "calls (dst (wrote p e)) = calls (dst (wrote q e))" by simp
  then show "p = q" by (simp add: wrote_def)
qed simp

lemma written_append: "written (cs @ ds) = written cs @ written ds"
  by (induction cs rule: written.induct) simp_all

section \<open>A byte parameter formatted with \<open>%c\<close> on the text path\<close>

text \<open>
  A byte \<open>v\<close> of 0x80 or more is formatted by \<open>%c\<close> as the two UTF-8 bytes of the code
  point U+00\<open>v\<close>; the encoder decodes them to that code point again and sends its
  GB18030 code.
\<close>

lemma m63: "(0x3F::byte) = mask 6" by (simp add: mask_eq_exp_minus_1)

lemma bit128: "bit (0x80::int) n \<Longrightarrow> n = 7"
proof -
  have "bit ((2::int) ^ 7) n \<longleftrightarrow> n = 7"
    by (simp only: bit_exp_iff) auto
  then show "bit (0x80::int) n \<Longrightarrow> n = 7" by simp
qed

lemma cont_and: "(0x80 OR ((v::byte) AND 0x3F)) AND 0x3F = v AND 0x3F"
  unfolding m63
  by (rule bit_word_eqI) (auto simp: bit_simps dest: bit128)

lemma cont_add: "0x80 OR ((v::byte) AND 0x3F) = 0x80 + (v AND 0x3F)"
  unfolding m63
  by (rule disjunctive_add [symmetric]) (auto simp: bit_simps dest: bit128)

lemma and63_mod: "unat ((v::byte) AND 0x3F) = unat v mod 64"
  unfolding m63 by (simp add: unat_mod unsigned_take_bit_eq take_bit_eq_mod flip: take_bit_eq_mask )

lemma cont_unat: "unat (0x80 OR ((v::byte) AND 0x3F)) = 128 + unat v mod 64"
proof -
  have "unat v mod 64 < 64" by simp
  then show ?thesis
    by (simp add: cont_add unat_word_ariths and63_mod)
qed

lemma cont_range: "\<not> 0x80 OR ((v::byte) AND 0x3F) < 0x80" "\<not> 0xBF < 0x80 OR ((v::byte) AND 0x3F)"
proof -
  have "unat v mod 64 < 64" by simp
  then show "\<not> 0x80 OR ((v::byte) AND 0x3F) < 0x80" "\<not> 0xBF < 0x80 OR ((v::byte) AND 0x3F)"
    by (simp_all add: word_less_nat_alt cont_unat)
qed

lemma lead2: 
  assumes "\<not> (v::byte) < 0x80"
  shows "(0xC0::byte) OR of_nat (drop_bit 6 (unat v)) = (if v < 0xC0 then 0xC2 else 0xC3)"
proof -
  from assms have lo: "128 \<le> unat v" by (simp add: word_less_nat_alt)
  have hi: "unat v < 256" using unsigned_less [of v] by simp
  show ?thesis
  proof (cases "v < 0xC0")
    case True
    then have "unat v < 192" by (simp add: word_less_nat_alt)
    with lo have "unat v div 64 = 2" by simp
    with True show ?thesis by (simp add: drop_bit_eq_div)
  next
    case False
    then have "192 \<le> unat v" by (simp add: word_less_nat_alt)
    with hi have "unat v div 64 = 3" by simp
    with False show ?thesis by (simp add: drop_bit_eq_div)
  qed
qed

lemma fmtC_high_byte:
  assumes "\<not> (v::byte) < 0x80"
  shows "fmtC (uint v) = [if v < 0xC0 then 0xC2 else 0xC3, 0x80 OR (v AND 0x3F)]"
proof -
  from assms have lo: "128 \<le> unat v" by (simp add: word_less_nat_alt)
  have hi: "unat v < 256" using unsigned_less [of v] by simp
  have "uint v < 256" using uint_bounded [of v] by simp
  then have "fmtC (uint v) = AppendRune (unat v)"
    by (simp add: fmtC_def MaxRune_def)
  also have "\<dots> = [0xC0 OR of_nat (drop_bit 6 (unat v)), 0x80 OR (v AND 0x3F)]"
    using lo hi by (simp add: AppendRune_def)
  finally show ?thesis using lead2 [OF assms] by simp
qed

lemma bit_nat_128: "bit (128::nat) n \<Longrightarrow> n = 7"
proof -
  have "bit ((2::nat) ^ 7) n \<longleftrightarrow> n = 7"
    by (simp only: bit_exp_iff) auto
  then show "bit (128::nat) n \<Longrightarrow> n = 7" by simp
qed

lemma bit_nat_192: "bit (192::nat) n \<Longrightarrow> n = 6 \<or> n = 7"
proof -
  have "(192::nat) = 2 ^ 6 + 2 ^ 7" by simp
  also have "\<dots> = 2 ^ 6 OR 2 ^ 7"
    by (rule disjunctive_add) (simp only: bit_exp_iff, auto)
  finally have "bit (192::nat) n \<longleftrightarrow> bit ((2::nat) ^ 6 OR 2 ^ 7) n" by simp
  also have "\<dots> \<longleftrightarrow> n = 6 \<or> n = 7"
    by (simp only: bit_or_iff bit_exp_iff) auto
  finally show "bit (192::nat) n \<Longrightarrow> n = 6 \<or> n = 7" by simp
qed

lemma or_low6: "(128::nat) OR x mod 64 = 128 + x mod 64" "(192::nat) OR x mod 64 = 192 + x mod 64"
proof -
  have t: "x mod 64 = take_bit 6 x" by (simp add: take_bit_eq_mod)
  show "(128::nat) OR x mod 64 = 128 + x mod 64"
    unfolding t by (rule disjunctive_add [symmetric]) (auto simp: bit_simps dest: bit_nat_128)
  show "(192::nat) OR x mod 64 = 192 + x mod 64"
    unfolding t by (rule disjunctive_add [symmetric]) (auto simp: bit_simps dest: bit_nat_192)
qed

lemma rune_high_byte:
  assumes "\<not> (v::byte) < 0x80"
  shows "DecodeRune ([if v < 0xC0 then 0xC2 else 0xC3, 0x80 OR (v AND 0x3F)] @ rest) = (unat v, 2)"
proof -
  from assms have lo: "128 \<le> unat v" by (simp add: word_less_nat_alt)
  have hi: "unat v < 256" using unsigned_less [of v] by simp
  show ?thesis
  proof (cases "v < 0xC0")
    case True
    then have "unat v < 192" by (simp add: word_less_nat_alt)
    with lo have "unat v div 64 = 2" by simp
    then have "unat v = 128 + unat v mod 64"
      using div_mult_mod_eq [of "unat v" 64] by simp
    then have "128 OR unat v mod 64 = unat v" by (simp add: or_low6)
    then show ?thesis using True cont_range [of v]
      by (simp add: DecodeRune_def first_size_def accept_lo_def accept_hi_def cont_and and63_mod)
  next
    case False
    then have "192 \<le> unat v" by (simp add: word_less_nat_alt)
    with hi have "unat v div 64 = 3" by simp
    then have "unat v = 192 + unat v mod 64"
      using div_mult_mod_eq [of "unat v" 64] by simp
    then have "192 OR unat v mod 64 = unat v" by (simp add: or_low6)
    then show ?thesis using False cont_range [of v]
      by (simp add: DecodeRune_def first_size_def accept_lo_def accept_hi_def cont_and and63_mod)
  qed
qed

lemma Transform_fmtC_byte:
  "Transform T (fmtC (uint v)) = (if v < 0x80 then [v] else code_bytes (T (unat v)))"
proof (cases "v < 0x80")
  case True
  then show ?thesis by (simp add: fmtC_byte_ascii)
next
  case False
  have "DecodeRune [if v < 0xC0 then 0xC2 else 0xC3, 0x80 OR (v AND 0x3F)] = (unat v, 2)"
    using rune_high_byte [OF False, of "[]"] by simp
  with False show ?thesis
    by (simp add: fmtC_high_byte)
qed

lemma Write_byte_command:
  assumes "list_all (\<lambda>b. b < 0x80) pre" and "pre \<noteq> []"
  shows "snd (Write T (pre @ fmtC (uint v)) e)
           = wrote (pre @ (if v < 0x80 then [v] else code_bytes (T (unat v)))) e"
  using assms
  by (simp add: Write_effect Transform_ascii_append Transform_fmtC_byte wrote_if_any_def)

lemma byte_command_exact:
  "wrote (pre @ (if v < 0x80 then [v] else code_bytes c)) e = wrote (pre @ [v]) e \<longleftrightarrow> v < 0x80"
  using code_bytes_length [of c] by (auto simp: wrote_inject)

lemma or_high: "\<not> (0xC0::byte) OR x < 0x80" "\<not> (0xE0::byte) OR x < 0x80" "\<not> (0xF0::byte) OR x < 0x80"
  using le_word_or2 [of "0xC0::byte" x] le_word_or2 [of "0xE0::byte" x] le_word_or2 [of "0xF0::byte" x]
  by (auto simp: word_le_nat_alt word_less_nat_alt)

lemma fmtC_multibyte:
  "c < 0 \<or> 128 \<le> c \<Longrightarrow> \<exists>b bs. fmtC c = b # bs \<and> \<not> b < 0x80"
  by (auto simp: fmtC_def AppendRune_def RuneError_def MaxRune_def or_high)

lemma Transform_multibyte: "\<not> b < 0x80 \<Longrightarrow> 2 \<le> length (Transform T (b # bs))"
  using code_bytes_length [of "T (fst (DecodeRune (b # bs)))"] by auto

lemma spec_type_code_ascii: "list_all (\<lambda>b. b < 0x80) (spec_type_code f)"
  by (auto simp: spec_type_code_def)

section \<open>Font size\<close>

text \<open>
  Claim C1. For width and height both in 0..7, \<open>SetFontSize\<close> stores both and makes
  exactly one write, of the three bytes GS, \<open>!\<close> and the packed byte
  \<open>(width << 4) | height\<close>; nothing else of the encoder changes. When either argument is
  8 or more the encoder, its transport included, is left as it was.
\<close>

theorem SetFontSize_packed_byte:
  "(w < 8 \<and> h < 8 \<longrightarrow>
      SetFontSize T w h e
        = wrote [0x1D, 0x21, push_bit 4 w OR h] (e\<lparr>width := w, height := h\<rparr>))
   \<and> (8 \<le> w \<or> 8 \<le> h \<longrightarrow> SetFontSize T w h e = e)"
proof (intro conjI impI)
  assume a: "w < 8 \<and> h < 8"
  then have p: "push_bit 4 w OR h < 0x80" by (simp add: packed_ascii)
  from a p show "SetFontSize T w h e
        = wrote [0x1D, 0x21, push_bit 4 w OR h] (e\<lparr>width := w, height := h\<rparr>)"
    by (simp add: SetFontSize_def SendFontSize_def fmtC_byte_ascii Write_ascii_effect)
next
  assume "8 \<le> w \<or> 8 \<le> h"
  then show "SetFontSize T w h e = e"
    by (auto simp: SetFontSize_def)
qed

theorem SetFontSize_packed_byte_witness:
  "(2::byte) < 8 \<and> (1::byte) < 8
   \<and> SetFontSize gb18030_excerpt 2 1 (New (printer_ok 0))
       = wrote [0x1D, 0x21, 0x21] ((New (printer_ok 0))\<lparr>width := 2, height := 1\<rparr>)
   \<and> ((8::byte) \<le> 8 \<or> (8::byte) \<le> 1)
   \<and> SetFontSize gb18030_excerpt 8 1 (New (printer_ok 0)) = New (printer_ok 0)"
  using SetFontSize_packed_byte [of 2 1 gb18030_excerpt "New (printer_ok 0)"]
    SetFontSize_packed_byte [of 8 1 gb18030_excerpt "New (printer_ok 0)"]
  by simp

section \<open>Power-on default after construction and reset\<close>

text \<open>
  Claim C2. After \<open>New\<close>, after \<open>reset\<close>, after \<open>Init\<close> and after \<open>Barcode\<close>
  the font scale is (1, 1) and the six toggles are 0.
\<close>

theorem default_after_reset:
  "power_on_default (New d) \<and> power_on_default (reset e)
   \<and> power_on_default (Init T e) \<and> power_on_default (Barcode T v f e)"
  by (simp add: power_on_default_def New_def Init_def Barcode_def Let_def
      Write_effect SetAlign_center style_reset)

section \<open>End marker and cash pulse\<close>

text \<open>
  Claim C3. \<open>End\<close> and \<open>Cash\<close> hand their literals to \<open>Write\<close>, the text path.
  The bytes 0xFA and 0xFF start no UTF-8 sequence, so the encoder reads each as U+FFFD
  and sends the GB18030 code of U+FFFD in its place (0x84 0x31 0xA4 0x37 in the
  standard's table). \<open>End\<close> therefore does not write the single byte 0xFA, and
  \<open>Cash\<close> does not write 0x1B 0x70 0x00 0x0A 0xFF, whatever the encoder's table is.
  \<open>OpenDrawer\<close>, which sends the same kind of pulse through \<open>WriteRaw\<close>, writes its
  five bytes unchanged.
\<close>

theorem End_Cash_transcoded:
  "End T e = wrote (code_bytes (T 0xFFFD)) e
   \<and> End T e \<noteq> wrote [0xFA] e
   \<and> Cash T e = wrote ([0x1B, 0x70, 0x00, 0x0A] @ code_bytes (T 0xFFFD)) e
   \<and> Cash T e \<noteq> wrote [0x1B, 0x70, 0x00, 0x0A, 0xFF] e"
proof -
  have d: "DecodeRune [0xFA] = (0xFFFD, 1)" "DecodeRune [0xFF] = (0xFFFD, 1)"
    by (simp_all add: DecodeRune_def first_size_def RuneError_def)
  have ne: "code_bytes (T 0xFFFD) \<noteq> []" "code_bytes (T 0xFFFD) \<noteq> [0xFA]"
    "code_bytes (T 0xFFFD) \<noteq> [0xFF]"
    using code_bytes_length [of "T 0xFFFD"] by auto
  have 1: "End T e = wrote (code_bytes (T 0xFFFD)) e"
    using ne by (simp add: End_def Write_effect d wrote_if_any_def)
  have 2: "Cash T e = wrote ([0x1B, 0x70, 0x00, 0x0A] @ code_bytes (T 0xFFFD)) e"
    using ne by (simp add: Cash_def Write_effect d wrote_if_any_def)
  show ?thesis
    using ne by (simp add: 1 2 wrote_inject)
qed

lemma OpenDrawer_raw: "OpenDrawer e = wrote [0x1B, 0x70, 0x00, 0x0A, 0x0A] e"
  by (simp add: OpenDrawer_def WriteRaw_effect wrote_if_any_def)

lemma End_excerpt:
  "calls (dst (End gb18030_excerpt (New (printer_ok 0)))) = [WriteCall [0x84, 0x31, 0xA4, 0x37]]"
  by (simp add: End_def Write_effect wrote_if_any_def wrote_def New_def reset_def
      printer_ok_def DecodeRune_def first_size_def RuneError_def gb18030_excerpt_def)

section \<open>Form feed by a count\<close>

text \<open>
  Claim C4. \<open>FormfeedN\<close> formats its count with \<open>%c\<close> and sends the result on the
  text path. For a count in 0..127 the write is ESC, \<open>d\<close> and the count byte. For a count
  in 128..255 it is ESC, \<open>d\<close> and the GB18030 code of the code point with that number,
  two or four bytes. For every count below 0 or above 127, those above 255 included, the
  write is not ESC, \<open>d\<close> and one byte, whatever that byte is: nothing truncates the
  count to a byte.
\<close>

theorem FormfeedN_count:
  "(0 \<le> n \<and> n < 128 \<longrightarrow> FormfeedN T n e = wrote [0x1B, 0x64, of_int n] e)
   \<and> (128 \<le> n \<and> n < 256 \<longrightarrow>
        FormfeedN T n e = wrote ([0x1B, 0x64] @ code_bytes (T (nat n))) e)
   \<and> (n < 0 \<or> 128 \<le> n \<longrightarrow> FormfeedN T n e \<noteq> wrote [0x1B, 0x64, b] e)"
proof (intro conjI impI)
  assume a: "0 \<le> n \<and> n < 128"
  then have "(of_int n :: byte) < 0x80"
    by (simp add: word_less_alt uint_word_of_int)
  with a show "FormfeedN T n e = wrote [0x1B, 0x64, of_int n] e"
    by (simp add: FormfeedN_def fmtC_ascii Write_ascii_effect)
next
  assume a: "128 \<le> n \<and> n < 256"
  define v :: byte where "v = of_int n"
  from a have n: "uint v = n" "unat v = nat n"
    by (simp_all add: v_def uint_word_of_int unat_eq_nat_uint)
  with a have "\<not> v < 0x80" by (simp add: word_less_alt)
  then show "FormfeedN T n e = wrote ([0x1B, 0x64] @ code_bytes (T (nat n))) e"
    using Write_byte_command [of "[0x1B, 0x64]" T v e] n by (simp add: FormfeedN_def)
next
  assume "n < 0 \<or> 128 \<le> n"
  then obtain c cs where f: "fmtC n = c # cs" "\<not> c < 0x80"
    using fmtC_multibyte by blast
  then have "2 \<le> length (Transform T (fmtC n))"
    using Transform_multibyte [of c T cs] by simp
  moreover have "Transform T ([0x1B, 0x64] @ fmtC n) = [0x1B, 0x64] @ Transform T (fmtC n)"
    by (rule Transform_ascii_append) simp
  ultimately have "FormfeedN T n e = wrote ([0x1B, 0x64] @ Transform T (fmtC n)) e"
    "Transform T (fmtC n) \<noteq> [b]"
    by (auto simp: FormfeedN_def Write_effect wrote_if_any_def)
  then show "FormfeedN T n e \<noteq> wrote [0x1B, 0x64, b] e"
    by (simp add: wrote_inject)
qed

theorem FormfeedN_count_witness:
  "(0::int) \<le> 5 \<and> (5::int) < 128
   \<and> FormfeedN gb18030_excerpt 5 (New (printer_ok 0)) = wrote [0x1B, 0x64, 0x05] (New (printer_ok 0))
   \<and> (128::int) \<le> 128 \<and> (128::int) < 256
   \<and> FormfeedN gb18030_excerpt 128 (New (printer_ok 0))
       = wrote [0x1B, 0x64, 0x81, 0x30, 0x81, 0x30] (New (printer_ok 0))
   \<and> ((256::int) < 0 \<or> (128::int) \<le> 256)
   \<and> FormfeedN gb18030_excerpt 256 (New (printer_ok 0)) \<noteq> wrote [0x1B, 0x64, 0x00] (New (printer_ok 0))"
  using FormfeedN_count [of 5 gb18030_excerpt "New (printer_ok 0)"]
    FormfeedN_count [of 128 gb18030_excerpt "New (printer_ok 0)"]
    FormfeedN_count [of 256 gb18030_excerpt "New (printer_ok 0)" 0]
  by (simp add: gb18030_excerpt_def)

section \<open>Toggle setters\<close>

text \<open>
  Claim C5. Each toggle setter stores \<open>v\<close> in its field and makes one write: the two
  bytes of its command, then \<open>v\<close> formatted with \<open>%c\<close> and sent on the text path.
  The parameter that reaches the transport is the byte \<open>v\<close> exactly when \<open>v\<close> is
  below 0x80; from 0x80 on it is the GB18030 code of U+00\<open>v\<close>, two or four bytes.
  \<open>SetFontColor\<close>, which sends its parameter through \<open>WriteRaw\<close>, passes every byte
  unchanged.
\<close>

theorem toggle_setters_parameter:
  "SetUnderline T v e
     = wrote ([0x1B, 0x2D] @ (if v < 0x80 then [v] else code_bytes (T (unat v))))
         (e\<lparr>underline := v\<rparr>)
   \<and> (SetUnderline T v e = wrote [0x1B, 0x2D, v] (e\<lparr>underline := v\<rparr>)) = (v < 0x80)
   \<and> SetEmphasize T v e
     = wrote ([0x1B, 0x47] @ (if v < 0x80 then [v] else code_bytes (T (unat v))))
         (e\<lparr>emphasize := v\<rparr>)
   \<and> (SetEmphasize T v e = wrote [0x1B, 0x47, v] (e\<lparr>emphasize := v\<rparr>)) = (v < 0x80)
   \<and> SetUpsidedown T v e
     = wrote ([0x1B, 0x7B] @ (if v < 0x80 then [v] else code_bytes (T (unat v))))
         (e\<lparr>upsidedown := v\<rparr>)
   \<and> (SetUpsidedown T v e = wrote [0x1B, 0x7B, v] (e\<lparr>upsidedown := v\<rparr>)) = (v < 0x80)
   \<and> SetRotate T v e
     = wrote ([0x1B, 0x52] @ (if v < 0x80 then [v] else code_bytes (T (unat v))))
         (e\<lparr>rotate_t := v\<rparr>)
   \<and> (SetRotate T v e = wrote [0x1B, 0x52, v] (e\<lparr>rotate_t := v\<rparr>)) = (v < 0x80)
   \<and> SetReverse T v e
     = wrote ([0x1D, 0x42] @ (if v < 0x80 then [v] else code_bytes (T (unat v))))
         (e\<lparr>reverse := v\<rparr>)
   \<and> (SetReverse T v e = wrote [0x1D, 0x42, v] (e\<lparr>reverse := v\<rparr>)) = (v < 0x80)
   \<and> SetSmooth T v e
     = wrote ([0x1D, 0x62] @ (if v < 0x80 then [v] else code_bytes (T (unat v))))
         (e\<lparr>smooth := v\<rparr>)
   \<and> (SetSmooth T v e = wrote [0x1D, 0x62, v] (e\<lparr>smooth := v\<rparr>)) = (v < 0x80)"
proof -
  have u: "SetUnderline T v e
     = wrote ([0x1B, 0x2D] @ (if v < 0x80 then [v] else code_bytes (T (unat v))))
         (e\<lparr>underline := v\<rparr>)"
    using Write_byte_command [of "[0x1B, 0x2D]" T v "e\<lparr>underline := v\<rparr>"]
    by (simp add: SetUnderline_def SendUnderline_def)
  have m: "SetEmphasize T v e
     = wrote ([0x1B, 0x47] @ (if v < 0x80 then [v] else code_bytes (T (unat v))))
         (e\<lparr>emphasize := v\<rparr>)"
    using Write_byte_command [of "[0x1B, 0x47]" T v "e\<lparr>emphasize := v\<rparr>"]
    by (simp add: SetEmphasize_def SendEmphasize_def)
  have d: "SetUpsidedown T v e
     = wrote ([0x1B, 0x7B] @ (if v < 0x80 then [v] else code_bytes (T (unat v))))
         (e\<lparr>upsidedown := v\<rparr>)"
    using Write_byte_command [of "[0x1B, 0x7B]" T v "e\<lparr>upsidedown := v\<rparr>"]
    by (simp add: SetUpsidedown_def SendUpsidedown_def)
  have r: "SetRotate T v e
     = wrote ([0x1B, 0x52] @ (if v < 0x80 then [v] else code_bytes (T (unat v))))
         (e\<lparr>rotate_t := v\<rparr>)"
    using Write_byte_command [of "[0x1B, 0x52]" T v "e\<lparr>rotate_t := v\<rparr>"]
    by (simp add: SetRotate_def SendRotate_def)
  have v: "SetReverse T v e
     = wrote ([0x1D, 0x42] @ (if v < 0x80 then [v] else code_bytes (T (unat v))))
         (e\<lparr>reverse := v\<rparr>)"
    using Write_byte_command [of "[0x1D, 0x42]" T v "e\<lparr>reverse := v\<rparr>"]
    by (simp add: SetReverse_def SendReverse_def)
  have s: "SetSmooth T v e
     = wrote ([0x1D, 0x62] @ (if v < 0x80 then [v] else code_bytes (T (unat v))))
         (e\<lparr>smooth := v\<rparr>)"
    using Write_byte_command [of "[0x1D, 0x62]" T v "e\<lparr>smooth := v\<rparr>"]
    by (simp add: SetSmooth_def SendSmooth_def)
  have x: "(wrote ([a, b] @ (if v < 0x80 then [v] else code_bytes c)) e' = wrote [a, b, v] e')
             = (v < 0x80)" for a b c e'
    using byte_command_exact [of "[a, b]" v c e'] by simp
  show ?thesis
    unfolding u m d r v s x by simp
qed

lemma SetFontColor_raw: "SetFontColor color e = wrote [0x1B, 0x72, color] e"
  by (simp add: SetFontColor_def WriteRaw_effect wrote_if_any_def)

lemma SetUnderline_excerpt:
  "calls (dst (SetUnderline gb18030_excerpt 0x80 (New (printer_ok 0))))
     = [WriteCall [0x1B, 0x2D, 0x81, 0x30, 0x81, 0x30]]"
  using Write_byte_command [of "[0x1B, 0x2D]" gb18030_excerpt "0x80"
      "(New (printer_ok 0))\<lparr>underline := 0x80\<rparr>"]
  by (simp add: SetUnderline_def SendUnderline_def wrote_def New_def reset_def
      printer_ok_def gb18030_excerpt_def)

section \<open>Barcode\<close>

text \<open>
  Claim C6, as stated, fails on a text with a byte of 0x80 or more: the text goes
  through \<open>Write\<close>, so what reaches the transport is its GB18030 transcoding. For the
  three UTF-8 bytes of U+4E2D and format 3 the frame carries 0xD6 0xD0, not the text's
  own bytes.
\<close>

theorem Barcode_text_counterexample:
  "Barcode gb18030_excerpt [0xE4, 0xB8, 0xAD] 3 (New (printer_ok 0))
     \<noteq> spec_Barcode [0xE4, 0xB8, 0xAD] 3 (New (printer_ok 0))"
proof
  assume "Barcode gb18030_excerpt [0xE4, 0xB8, 0xAD] 3 (New (printer_ok 0))
     = spec_Barcode [0xE4, 0xB8, 0xAD] 3 (New (printer_ok 0))"
  then have "calls (dst (Barcode gb18030_excerpt [0xE4, 0xB8, 0xAD] 3 (New (printer_ok 0))))
     = calls (dst (spec_Barcode [0xE4, 0xB8, 0xAD] 3 (New (printer_ok 0))))"
    by simp
  then show False
    by (simp add: Barcode_def Let_def SetAlign_center Write_effect wrote_if_any_def wrote_def
        spec_Barcode_def spec_type_code_def DecodeRune_def first_size_def accept_lo_def
        accept_hi_def gb18030_excerpt_def)
qed

text \<open>
  Claim C6, amended. For every text and format, \<open>Barcode\<close> resets the style state and
  writes the centring command; then, for a format above 69, one write of GS, \<open>k\<close>, the
  type code, the decimal length of the text in bytes and the transcoded text; for a format
  below 69, one write of GS, \<open>k\<close>, the type code, the transcoded text and a NUL byte;
  for format 69 no frame; and last one write of the transcoded text, when the text is not
  empty. The transcoded text is the text itself when all its bytes are below 0x80, and
  then \<open>Barcode\<close> does what the specification words.
\<close>

theorem Barcode_frames:
  "Barcode T v format e =
     wrote_if_any (Transform T v)
       (wrote_if_any
          (if format > 69
             then [0x1D, 0x6B] @ spec_type_code format @ fmtInt (length v) @ Transform T v
           else if format < 69
             then [0x1D, 0x6B] @ spec_type_code format @ Transform T v @ [0x00]
           else [])
          (wrote [0x1B, 0x61, 0x01] (reset e)))
   \<and> (list_all (\<lambda>b. b < 0x80) v \<longrightarrow> Barcode T v format e = spec_Barcode v format e)"
proof -
  have code: "(if format = 0 then [0x00]
                  else if format = 1 then [0x01]
                  else if format = 2 then [0x02]
                  else if format = 3 then [0x03]
                  else if format = 4 then [0x04]
                  else if format = 73 then [0x49]
                  else []) = spec_type_code format"
    by (auto simp: spec_type_code_def)
  have hdr: "list_all (\<lambda>b. b < 0x80) ([0x1D, 0x6B] @ spec_type_code format)"
    "list_all (\<lambda>b. b < 0x80) ([0x1D, 0x6B] @ spec_type_code format @ fmtInt (length v))"
    using spec_type_code_ascii [of format] fmtInt_ascii [of "length v"] by simp_all
  have hi: "Transform T ([0x1D, 0x6B] @ spec_type_code format @ fmtInt (length v) @ v)
              = [0x1D, 0x6B] @ spec_type_code format @ fmtInt (length v) @ Transform T v"
    using Transform_ascii_append [OF hdr(2), of T v] by simp
  have "Transform T (([0x1D, 0x6B] @ spec_type_code format) @ (v @ [0x00]))
              = ([0x1D, 0x6B] @ spec_type_code format) @ Transform T (v @ [0x00])"
    by (rule Transform_ascii_append [OF hdr(1)])
  then have lo: "Transform T ([0x1D, 0x6B] @ spec_type_code format @ v @ [0x00])
              = [0x1D, 0x6B] @ spec_type_code format @ Transform T v @ [0x00]"
    by (simp add: Transform_snoc)
  have 1: "Barcode T v format e =
     wrote_if_any (Transform T v)
       (wrote_if_any
          (if format > 69
             then [0x1D, 0x6B] @ spec_type_code format @ fmtInt (length v) @ Transform T v
           else if format < 69
             then [0x1D, 0x6B] @ spec_type_code format @ Transform T v @ [0x00]
           else [])
          (wrote [0x1B, 0x61, 0x01] (reset e)))"
    unfolding Barcode_def Let_def code SetAlign_center Write_effect hi lo
    by (simp add: wrote_if_any_def)
  show ?thesis
    unfolding 1 by (simp add: spec_Barcode_def Transform_ascii)
qed

theorem Barcode_frames_witness:
  "list_all (\<lambda>b. b < 0x80) [0x31, 0x32, 0x33, 0x34, 0x35 :: byte]
   \<and> Barcode gb18030_excerpt [0x31, 0x32, 0x33, 0x34, 0x35] 3 (New (printer_ok 0))
       = spec_Barcode [0x31, 0x32, 0x33, 0x34, 0x35] 3 (New (printer_ok 0))
   \<and> calls (dst (Barcode gb18030_excerpt [0x31, 0x32, 0x33, 0x34, 0x35] 3 (New (printer_ok 0))))
       = [WriteCall [0x1B, 0x61, 0x01],
          WriteCall [0x1D, 0x6B, 0x03, 0x31, 0x32, 0x33, 0x34, 0x35, 0x00],
          WriteCall [0x31, 0x32, 0x33, 0x34, 0x35]]"
  using Barcode_frames [of gb18030_excerpt "[0x31, 0x32, 0x33, 0x34, 0x35]" 3 "New (printer_ok 0)"]
  by (simp add: spec_Barcode_def spec_type_code_def wrote_if_any_def wrote_def New_def
      reset_def printer_ok_def)

section \<open>Graphics frame\<close>

text \<open>
  \<open>gSend\<close> makes one write of the prefix ESC, \<open>(\<close>, \<open>L\<close>, one of the four header
  bytes and one of the data as they are (none for empty data). The header entries are
  bytes: \<open>byte(l % 256)\<close> and \<open>byte(l / 256)\<close> keep the low eight bits of their
  argument.
\<close>

lemma gSend_effect:
  "gSend T m fn data e =
     wrote_if_any data
       (wrote [of_nat ((length data + 2) mod 256), of_nat ((length data + 2) div 256), m, fn]
          (wrote [0x1B, 0x28, 0x4C] e))"
  by (simp add: gSend_def Let_def Write_ascii_effect WriteRaw_effect wrote_if_any_def)

lemma byte_256: "(256 :: byte) = 0"
proof -
  have "(2 :: byte) ^ LENGTH(8) = 0" by (rule word_pow_0)
  then show ?thesis by simp
qed

lemma gSend_header_unat:
  "map unat [of_nat ((L + 2) mod 256), of_nat ((L + 2) div 256), m, fn :: byte]
     = [(L + 2) mod 256, (L + 2) div 256 mod 256, unat m, unat fn]"
  by (simp add: unat_of_nat del: of_nat_add)

text \<open>
  Claim C7, as stated, fails on data of 65534 bytes: \<open>L + 2\<close> is 65536, the
  specification's second header entry is 256, and the code sends the header bytes
  0, 0, \<open>m\<close>, \<open>fn\<close>.
\<close>

theorem gSend_header_counterexample:
  "gSend gb18030_excerpt 0x30 0x70 (replicate 65534 0) (New (printer_ok 0))
     = wrote (replicate 65534 0)
         (wrote [0, 0, 0x30, 0x70] (wrote [0x1B, 0x28, 0x4C] (New (printer_ok 0))))
   \<and> spec_gSend_header (length (replicate 65534 (0::byte))) 0x30 0x70 = [0, 256, 48, 112]
   \<and> map unat [0, 0, 0x30, 0x70 :: byte]
       \<noteq> spec_gSend_header (length (replicate 65534 (0::byte))) 0x30 0x70"
proof -
  define d :: "byte list" where "d = replicate 65534 0"
  have len: "length d = 65534" by (simp only: d_def length_replicate)
  then have ne: "d \<noteq> []" by auto
  have "gSend gb18030_excerpt 0x30 0x70 d (New (printer_ok 0))
     = wrote d (wrote [0, 0, 0x30, 0x70] (wrote [0x1B, 0x28, 0x4C] (New (printer_ok 0))))"
    using ne by (simp add: gSend_effect len wrote_if_any_def byte_256)
  moreover have "spec_gSend_header (length d) 0x30 0x70 = [0, 256, 48, 112]"
    by (simp add: spec_gSend_header_def len)
  ultimately show ?thesis
    unfolding d_def [symmetric] by simp
qed

text \<open>
  Claim C7, amended. For every \<open>m\<close>, \<open>fn\<close> and data of length \<open>L\<close> with
  \<open>L + 2 < 65536\<close>, \<open>gSend\<close> writes the prefix ESC, \<open>(\<close>, \<open>L\<close>, then the four
  header bytes \<open>(L+2) % 256\<close>, \<open>(L+2) / 256\<close>, \<open>m\<close>, \<open>fn\<close>, then the data as they
  are, in that order, and nothing else of the encoder changes. For longer data the same
  holds with the second header byte \<open>(L+2) / 256\<close> reduced modulo 256.
\<close>

theorem gSend_frame:
  "(length data + 2 < 65536 \<longrightarrow>
      gSend T m fn data e
        = wrote_if_any data
            (wrote [of_nat ((length data + 2) mod 256), of_nat ((length data + 2) div 256),
                    m, fn]
               (wrote [0x1B, 0x28, 0x4C] e))
      \<and> map unat [of_nat ((length data + 2) mod 256), of_nat ((length data + 2) div 256),
                   m, fn :: byte]
          = spec_gSend_header (length data) m fn
      \<and> written (calls (dst (gSend T m fn data e)))
          = written (calls (dst e)) @ [0x1B, 0x28, 0x4C]
              @ [of_nat ((length data + 2) mod 256), of_nat ((length data + 2) div 256), m, fn]
              @ data)
   \<and> gSend T m fn data e
        = wrote_if_any data
            (wrote [of_nat ((length data + 2) mod 256), of_nat ((length data + 2) div 256),
                    m, fn]
               (wrote [0x1B, 0x28, 0x4C] e))
   \<and> map unat [of_nat ((length data + 2) mod 256), of_nat ((length data + 2) div 256),
                m, fn :: byte]
       = [(length data + 2) mod 256, (length data + 2) div 256 mod 256, unat m, unat fn]"
proof -
  let ?hdr = "[of_nat ((length data + 2) mod 256), of_nat ((length data + 2) div 256), m, fn]
                :: byte list"
  have eq: "gSend T m fn data e
              = wrote_if_any data (wrote ?hdr (wrote [0x1B, 0x28, 0x4C] e))"
    by (rule gSend_effect)
  have stream: "written (calls (dst (gSend T m fn data e)))
                  = written (calls (dst e)) @ [0x1B, 0x28, 0x4C] @ ?hdr @ data"
    unfolding eq by (simp add: wrote_if_any_def wrote_def written_append)
  have vals: "map unat ?hdr
                = [(length data + 2) mod 256, (length data + 2) div 256 mod 256, unat m, unat fn]"
    by (rule gSend_header_unat)
  have small: "map unat ?hdr = spec_gSend_header (length data) m fn"
    if "length data + 2 < 65536"
  proof -
    from that have "(length data + 2) div 256 < 256" by simp
    then have "(length data + 2) div 256 mod 256 = (length data + 2) div 256" by simp
    with vals show ?thesis by (simp only: spec_gSend_header_def)
  qed
  show ?thesis
  proof (intro conjI impI)
    assume "length data + 2 < 65536"
    then show "map unat ?hdr = spec_gSend_header (length data) m fn" by (rule small)
  qed (rule eq stream vals)+
qed

theorem gSend_frame_witness:
  "length [1, 2, 3 :: byte] + 2 < 65536
   \<and> gSend gb18030_excerpt 0x30 0x70 [1, 2, 3] (New (printer_ok 0))
       = wrote [1, 2, 3]
           (wrote [5, 0, 0x30, 0x70] (wrote [0x1B, 0x28, 0x4C] (New (printer_ok 0))))
   \<and> map unat [5, 0, 0x30, 0x70 :: byte] = spec_gSend_header (length [1, 2, 3 :: byte]) 0x30 0x70
   \<and> written (calls (dst (gSend gb18030_excerpt 0x30 0x70 [1, 2, 3] (New (printer_ok 0)))))
       = [0x1B, 0x28, 0x4C, 5, 0, 0x30, 0x70, 1, 2, 3]"
proof -
  have l: "length [1, 2, 3 :: byte] + 2 < 65536" by simp
  have n: "length [1, 2, 3 :: byte] + 2 = 5" by simp
  note t = gSend_frame [of "[1, 2, 3]" gb18030_excerpt "0x30" "0x70" "New (printer_ok 0)",
      unfolded n]
  have a: "gSend gb18030_excerpt 0x30 0x70 [1, 2, 3] (New (printer_ok 0))
       = wrote [1, 2, 3]
           (wrote [5, 0, 0x30, 0x70] (wrote [0x1B, 0x28, 0x4C] (New (printer_ok 0))))"
    using t by (simp add: wrote_if_any_def)
  have b: "map unat [5, 0, 0x30, 0x70 :: byte]
             = spec_gSend_header (length [1, 2, 3 :: byte]) 0x30 0x70"
    using t by simp
  have c: "written (calls (dst (gSend gb18030_excerpt 0x30 0x70 [1, 2, 3] (New (printer_ok 0)))))
       = [0x1B, 0x28, 0x4C, 5, 0, 0x30, 0x70, 1, 2, 3]"
    unfolding a by (simp add: wrote_def New_def reset_def printer_ok_def)
  from l a b c show ?thesis by (intro conjI)
qed

section \<open>Status query\<close>

text \<open>
  Claim C8. \<open>ReadStatus n\<close> makes one write of the three bytes 0x10, 0x04, \<open>n\<close> and
  then one read into a buffer of one byte, and no other call. When the read reports an
  error, that error is returned. When it reports none, the byte it stored is returned;
  a read that stores no byte and reports no error leaves the buffer's 0 to be returned.
\<close>

theorem ReadStatus_result:
  "calls (dst (snd (ReadStatus n e)))
     = calls (dst e) @ [WriteCall [0x10, 0x04, n], ReadCall 1]
   \<and> (read_result (dst e) (calls (dst e) @ [WriteCall [0x10, 0x04, n]]) 1 = (bs, Some er)
        \<longrightarrow> fst (ReadStatus n e) = (0, Some er))
   \<and> (read_result (dst e) (calls (dst e) @ [WriteCall [0x10, 0x04, n]]) 1 = (b # bs, None)
        \<longrightarrow> fst (ReadStatus n e) = (b, None))
   \<and> (read_result (dst e) (calls (dst e) @ [WriteCall [0x10, 0x04, n]]) 1 = ([], None)
        \<longrightarrow> fst (ReadStatus n e) = (0, None))"
  by (auto simp: ReadStatus_def ReadRaw_def dst_Read_def WriteRaw_effect wrote_if_any_def
      wrote_def DLE_def EOT_def Let_def split: prod.splits)

theorem ReadStatus_result_witness:
  "read_result (dst (New printer_down))
       (calls (dst (New printer_down)) @ [WriteCall [0x10, 0x04, 1]]) 1
     = ([], Some (Error ''EOF''))
   \<and> fst (ReadStatus 1 (New printer_down)) = (0, Some (Error ''EOF''))
   \<and> read_result (dst (New (printer_ok 0x12)))
       (calls (dst (New (printer_ok 0x12))) @ [WriteCall [0x10, 0x04, 1]]) 1
     = ([0x12], None)
   \<and> fst (ReadStatus 1 (New (printer_ok 0x12))) = (0x12, None)
   \<and> read_result (dst (New printer_silent))
       (calls (dst (New printer_silent)) @ [WriteCall [0x10, 0x04, 1]]) 1
     = ([], None)
   \<and> fst (ReadStatus 1 (New printer_silent)) = (0, None)
   \<and> calls (dst (snd (ReadStatus 1 (New (printer_ok 0x12)))))
     = [WriteCall [0x10, 0x04, 1], ReadCall 1]"
  using ReadStatus_result [where n = 1 and e = "New printer_down" and bs = "[]"
      and er = "Error ''EOF''"]
    ReadStatus_result [where n = 1 and e = "New (printer_ok 0x12)" and b = "0x12" and bs = "[]"]
    ReadStatus_result [where n = 1 and e = "New printer_silent"]
  by (simp add: New_def reset_def printer_down_def printer_ok_def printer_silent_def)

section \<open>Write errors\<close>

text \<open>
  Claim C9. \<open>WriteRaw\<close> and \<open>Write\<close> return the count 0 and a nil error for every
  input and every transport, whatever the transport's own \<open>Write\<close> returns: its result
  is dropped. They are the only write operations with a result; every other one returns
  nothing. The encoder of the text path has a code for every rune and reports no error.
\<close>

theorem write_errors_never_surface:
  "fst (WriteRaw data e) = (0, None) \<and> fst (Write T data e) = (0, None)"
  by (simp add: WriteRaw_def Write_def)

lemma printer_down_discarded:
  "fst (dst_Write [0x0A] printer_down) = (0, Some (Error ''broken pipe''))
   \<and> fst (WriteRaw [0x0A] (New printer_down)) = (0, None)
   \<and> calls (dst (snd (WriteRaw [0x0A] (New printer_down)))) = [WriteCall [0x0A]]"
  by (simp add: dst_Write_def printer_down_def WriteRaw_def New_def reset_def)

section \<open>Frame of the toggle setters\<close>

text \<open>
  Claim C10. A toggle setter changes the field it is named after and no other style
  field: width, height and the five other toggles are as before the call.
\<close>

theorem toggle_setters_frame:
  "style (SetUnderline T v e)
     = (width e, height e, v, emphasize e, upsidedown e, rotate_t e, reverse e, smooth e)
   \<and> style (SetEmphasize T v e)
     = (width e, height e, underline e, v, upsidedown e, rotate_t e, reverse e, smooth e)
   \<and> style (SetUpsidedown T v e)
     = (width e, height e, underline e, emphasize e, v, rotate_t e, reverse e, smooth e)
   \<and> style (SetRotate T v e)
     = (width e, height e, underline e, emphasize e, upsidedown e, v, reverse e, smooth e)
   \<and> style (SetReverse T v e)
     = (width e, height e, underline e, emphasize e, upsidedown e, rotate_t e, v, smooth e)
   \<and> style (SetSmooth T v e)
     = (width e, height e, underline e, emphasize e, upsidedown e, rotate_t e, reverse e, v)"
  by (simp add: SetUnderline_def SendUnderline_def SetEmphasize_def SendEmphasize_def
      SetUpsidedown_def SendUpsidedown_def SetRotate_def SendRotate_def
      SetReverse_def SendReverse_def SetSmooth_def SendSmooth_def Write_effect)
    (simp add: style_def)

end
